theory Spec2Isabelle
  imports Complex_Main
begin

section \<open>FootballTalks: the match outcome prediction engine\<close>

text \<open>
  A shallow embedding of the prediction logic of \<^verbatim>\<open>src/footballtalks/app.py\<close>:
  \<^verbatim>\<open>recent_team_stats\<close>, the module-level computation of the two goal rates
  (lines 225 to 229), \<^verbatim>\<open>poisson_prob\<close>, \<^verbatim>\<open>score_matrix\<close>, \<^verbatim>\<open>outcome_probs\<close> and the
  scoreline selection \<^verbatim>\<open>np.unravel_index(np.argmax(grid), grid.shape)\<close>.

  Conventions of the model.
  \<^item> Python floats and numpy float64 values are modelled by \<^typ>\<open>real\<close>: rounding,
    overflow and underflow of IEEE doubles are not represented. The one place where
    numpy produces a non-finite value from finite operands, the division by a zero
    total in \<^verbatim>\<open>outcome_probs\<close>, is modelled explicitly (type \<open>npfloat\<close>).
  \<^item> A Python exception is a value \<open>Inl e\<close> of a sum type.
  \<^item> A Python string is a list of code points below 256, one \<^typ>\<open>char\<close> each.
  \<^item> The network fetch \<^verbatim>\<open>team_recent_matches\<close> is outside the model: its result,
    the list of match records, is a parameter.
\<close>

datatype py_error = IndexError | ValueError

subsection \<open>Match records and the form summary\<close>

text \<open>
  A match record as \<^verbatim>\<open>recent_team_stats\<close> reads it. \<open>fullTime\<close> is
  \<^verbatim>\<open>m.get("score", {}).get("fullTime", {})\<close>: \<open>None\<close> when the value is \<^verbatim>\<open>null\<close>
  or the key is missing, otherwise the pair of \<^verbatim>\<open>ft.get("home")\<close> and
  \<^verbatim>\<open>ft.get("away")\<close>, each \<open>None\<close> when \<^verbatim>\<open>null\<close> or missing.
\<close>

record match_rec =
  homeTeamId :: int
  awayTeamId :: int
  fullTime :: "(int option \<times> int option) option"
  winner :: "string option"

record summary =
  gf :: real
  ga :: real
  pts_per_game :: real
  form_val :: real

text \<open>The accumulators of the loop of \<^verbatim>\<open>recent_team_stats\<close>.\<close>

record tally =
  t_gf :: int
  t_ga :: int
  t_pts :: int
  t_count :: int

definition default_summary :: summary where
  "default_summary = \<lparr>gf = 12 / 10, ga = 11 / 10, pts_per_game = 15 / 10, form_val = 0\<rparr>"

text \<open>
  The test of line 134: a record is skipped when \<^verbatim>\<open>ft is None\<close> or either goal
  count is \<^verbatim>\<open>None\<close>. A valid record carries both goal counts.
\<close>

definition valid_score :: "match_rec \<Rightarrow> (int \<times> int) option" where
  "valid_score m =
     (case fullTime m of
        None \<Rightarrow> None
      | Some (None, _) \<Rightarrow> None
      | Some (Some h, None) \<Rightarrow> None
      | Some (Some h, Some a) \<Rightarrow> Some (h, a))"

definition gf_of :: "int \<Rightarrow> match_rec \<Rightarrow> int \<times> int \<Rightarrow> int" where
  "gf_of team_id m full = (if team_id = homeTeamId m then fst full else snd full)"

definition ga_of :: "int \<Rightarrow> match_rec \<Rightarrow> int \<times> int \<Rightarrow> int" where
  "ga_of team_id m full = (if team_id = homeTeamId m then snd full else fst full)"

definition points_of :: "int \<Rightarrow> match_rec \<Rightarrow> int" where
  "points_of team_id m =
     (if winner m = Some ''DRAW'' then 1
      else if winner m = Some ''HOME_TEAM'' \<and> team_id = homeTeamId m then 3
      else if winner m = Some ''AWAY_TEAM'' \<and> team_id = awayTeamId m then 3
      else 0)"

fun stats_loop :: "int \<Rightarrow> tally \<Rightarrow> match_rec list \<Rightarrow> tally" where
  "stats_loop team_id t [] = t"
| "stats_loop team_id t (m # ms) =
     (case valid_score m of
        None \<Rightarrow> stats_loop team_id t ms
      | Some full \<Rightarrow>
          stats_loop team_id
            \<lparr>t_gf = t_gf t + gf_of team_id m full,
             t_ga = t_ga t + ga_of team_id m full,
             t_pts = t_pts t + points_of team_id m,
             t_count = t_count t + 1\<rparr> ms)"

definition recent_team_stats :: "int \<Rightarrow> match_rec list \<Rightarrow> summary" where
  "recent_team_stats team_id matches =
     (if matches = [] then default_summary
      else
        let t = stats_loop team_id \<lparr>t_gf = 0, t_ga = 0, t_pts = 0, t_count = 0\<rparr> matches;
            games = max (t_count t) 1;
            ppg = real_of_int (t_pts t) / real_of_int games
        in \<lparr>gf = real_of_int (t_gf t) / real_of_int games,
            ga = real_of_int (t_ga t) / real_of_int games,
            pts_per_game = ppg,
            form_val = ppg - 1\<rparr>)"

subsection \<open>Weather description and the expected goal rates\<close>

text \<open>
  \<^verbatim>\<open>str.split()\<close> without arguments splits at runs of whitespace and drops empty
  words; \<open>is_space\<close> is \<^verbatim>\<open>str.isspace\<close> on the code points below 256.
  \<open>split_from w s\<close> scans \<open>s\<close> with the word \<open>w\<close> read so far.
\<close>

definition is_space :: "char \<Rightarrow> bool" where
  "is_space c =
     (let n = (of_char c :: nat)
      in (9 \<le> n \<and> n \<le> 13) \<or> (28 \<le> n \<and> n \<le> 32) \<or> n = 133 \<or> n = 160)"

fun split_from :: "string \<Rightarrow> string \<Rightarrow> string list" where
  "split_from w [] = (if w = [] then [] else [w])"
| "split_from w (c # cs) =
     (if is_space c then (if w = [] then split_from [] cs else w # split_from [] cs)
      else split_from (w @ [c]) cs)"

definition str_split :: "string \<Rightarrow> string list" where
  "str_split s = split_from [] s"

text \<open>
  \<^verbatim>\<open>str.lower()\<close> on the code points below 256: the letters A to Z and the
  accented capitals 192 to 222 (without the multiplication sign, 215) move up by 32.
\<close>

definition lower_char :: "char \<Rightarrow> char" where
  "lower_char c =
     (let n = (of_char c :: nat)
      in if (65 \<le> n \<and> n \<le> 90) \<or> (192 \<le> n \<and> n \<le> 222 \<and> n \<noteq> 215)
         then char_of (n + 32) else c)"

definition str_lower :: "string \<Rightarrow> string" where
  "str_lower s = map lower_char s"

text \<open>
  The condition of line 227, \<^verbatim>\<open>desc.split()[0].lower() in ("rain", "snow")\<close>.
  Indexing the empty word list raises \<^verbatim>\<open>IndexError\<close>.
\<close>

definition rain_or_snow :: "string \<Rightarrow> py_error + bool" where
  "rain_or_snow desc =
     (case str_split desc of
        [] \<Rightarrow> Inl IndexError
      | w # _ \<Rightarrow> Inr (str_lower w = ''rain'' \<or> str_lower w = ''snow''))"

text \<open>
  Lines 225 to 229: the two rates from the home summary \<open>hs\<close>, the away summary
  \<open>as'\<close> (\<^verbatim>\<open>as_\<close> in the source) and the weather description.
\<close>

definition estimate :: "summary \<Rightarrow> summary \<Rightarrow> string \<Rightarrow> py_error + real \<times> real" where
  "estimate hs as' desc =
     (let lh = max (2 / 10) (65 / 100 * gf hs + 35 / 100 * ga as') * (112 / 100);
          la = max (2 / 10) (65 / 100 * gf as' + 35 / 100 * ga hs)
      in case rain_or_snow desc of
           Inl e \<Rightarrow> Inl e
         | Inr wet \<Rightarrow>
             let (lh, la) = (if wet then (lh * (95 / 100), la * (95 / 100)) else (lh, la))
             in Inr (min lh (32 / 10), min la (32 / 10)))"

subsection \<open>The Poisson scoreline grid\<close>

text \<open>
  \<^verbatim>\<open>poisson_prob(k, lam)\<close>. Its callers pass \<open>k\<close> from \<^verbatim>\<open>range(max_goals+1)\<close>, a
  natural number.
\<close>

definition poisson_prob :: "nat \<Rightarrow> real \<Rightarrow> real" where
  "poisson_prob k lam = exp (- lam) * lam ^ k / fact k"

text \<open>
  A two-dimensional numpy array is the list of its rows. \<open>zeros\<close> is \<^verbatim>\<open>np.zeros\<close>,
  \<open>set_cell g h a v\<close> is the assignment \<^verbatim>\<open>g[h, a] = v\<close>.
\<close>

definition zeros :: "nat \<Rightarrow> nat \<Rightarrow> real list list" where
  "zeros r c = replicate r (replicate c 0)"

definition set_cell :: "real list list \<Rightarrow> nat \<Rightarrow> nat \<Rightarrow> real \<Rightarrow> real list list" where
  "set_cell g h a v = g[h := (g ! h)[a := v]]"

text \<open>
  \<^verbatim>\<open>score_matrix(lh, la, max_goals)\<close>: the inner loop over \<open>a\<close>, the outer loop over
  \<open>h\<close>. \<^verbatim>\<open>np.zeros\<close> raises \<^verbatim>\<open>ValueError\<close> on a negative dimension.
\<close>

definition fill_row :: "real \<Rightarrow> real \<Rightarrow> nat \<Rightarrow> nat \<Rightarrow> real list list \<Rightarrow> real list list" where
  "fill_row lh la n h g =
     fold (\<lambda>a g. set_cell g h a (poisson_prob h lh * poisson_prob a la)) [0..<n] g"

definition score_matrix :: "real \<Rightarrow> real \<Rightarrow> int \<Rightarrow> py_error + real list list" where
  "score_matrix lh la max_goals =
     (if max_goals + 1 < 0 then Inl ValueError
      else
        let n = nat (max_goals + 1)
        in Inr (fold (fill_row lh la n) [0..<n] (zeros n n)))"

subsection \<open>Outcome probabilities and the most likely scoreline\<close>

text \<open>
  \<^verbatim>\<open>np.tril(g, k)\<close> keeps the cells on and below the \<open>k\<close>-th diagonal (column
  \<open>j \<le> i + k\<close> in row \<open>i\<close>) and zeroes the others; \<^verbatim>\<open>np.triu(g, k)\<close> keeps the cells
  with \<open>j \<ge> i + k\<close>. \<open>arr_sum\<close> is \<^verbatim>\<open>.sum()\<close>, \<open>trace\<close> is \<^verbatim>\<open>np.trace\<close>.
\<close>

definition ncols :: "real list list \<Rightarrow> nat" where
  "ncols g = (case g of [] \<Rightarrow> 0 | r # _ \<Rightarrow> length r)"

definition tril :: "real list list \<Rightarrow> int \<Rightarrow> real list list" where
  "tril g k =
     map (\<lambda>(i, row). map (\<lambda>(j, x). if int j \<le> int i + k then x else 0) (enumerate 0 row))
       (enumerate 0 g)"

definition triu :: "real list list \<Rightarrow> int \<Rightarrow> real list list" where
  "triu g k =
     map (\<lambda>(i, row). map (\<lambda>(j, x). if int i + k \<le> int j then x else 0) (enumerate 0 row))
       (enumerate 0 g)"

definition arr_sum :: "real list list \<Rightarrow> real" where
  "arr_sum g = sum_list (map sum_list g)"

definition trace :: "real list list \<Rightarrow> real" where
  "trace g = sum_list (map (\<lambda>i. g ! i ! i) [0..<min (length g) (ncols g)])"

text \<open>
  The result of a numpy float64 division of finite operands: a zero divisor gives
  \<^verbatim>\<open>inf\<close>, \<^verbatim>\<open>-inf\<close> or \<^verbatim>\<open>nan\<close> (with a warning), never an exception.
\<close>

datatype npfloat = Finite real | PosInf | NegInf | NaN

definition np_div :: "real \<Rightarrow> real \<Rightarrow> npfloat" where
  "np_div x y =
     (if y \<noteq> 0 then Finite (x / y)
      else if 0 < x then PosInf
      else if x < 0 then NegInf
      else NaN)"

text \<open>A division result is usable as a probability only when it is finite.\<close>

fun is_finite :: "npfloat \<Rightarrow> bool" where
  "is_finite (Finite x) = True"
| "is_finite PosInf = False"
| "is_finite NegInf = False"
| "is_finite NaN = False"

definition outcome_probs :: "real list list \<Rightarrow> npfloat \<times> npfloat \<times> npfloat" where
  "outcome_probs g =
     (let home = arr_sum (tril g (- 1));
          draw = trace g;
          away = arr_sum (triu g 1);
          s = home + draw + away
      in (np_div home s, np_div draw s, np_div away s))"

text \<open>
  \<^verbatim>\<open>np.argmax\<close> reads the array flattened row by row and returns the index of the
  first occurrence of the maximum; on an empty array it raises \<^verbatim>\<open>ValueError\<close>.
  \<open>argmax_loop xs i best bv\<close> scans \<open>xs\<close>, whose first element has index \<open>i\<close>, with
  the best index and value so far.
\<close>

fun argmax_loop :: "real list \<Rightarrow> nat \<Rightarrow> nat \<Rightarrow> real \<Rightarrow> nat" where
  "argmax_loop [] i best bv = best"
| "argmax_loop (x # xs) i best bv =
     (if bv < x then argmax_loop xs (Suc i) i x else argmax_loop xs (Suc i) best bv)"

definition argmax :: "real list \<Rightarrow> py_error + nat" where
  "argmax xs = (case xs of [] \<Rightarrow> Inl ValueError | x # rest \<Rightarrow> Inr (argmax_loop rest 1 0 x))"

definition unravel_index :: "nat \<Rightarrow> nat \<times> nat \<Rightarrow> py_error + nat \<times> nat" where
  "unravel_index idx shape =
     (if idx < fst shape * snd shape then Inr (idx div snd shape, idx mod snd shape)
      else Inl ValueError)"

text \<open>Line 232: \<^verbatim>\<open>np.unravel_index(np.argmax(grid), grid.shape)\<close>.\<close>

definition most_likely_scoreline :: "real list list \<Rightarrow> py_error + nat \<times> nat" where
  "most_likely_scoreline g =
     (case argmax (concat g) of
        Inl e \<Rightarrow> Inl e
      | Inr idx \<Rightarrow> unravel_index idx (length g, ncols g))"

subsection \<open>Notions of the specification\<close>

text \<open>
  A grid is rectangular when all its rows have the length of the first one, as every
  numpy array is.
\<close>

definition rect :: "real list list \<Rightarrow> bool" where
  "rect g = list_all (\<lambda>row. length row = ncols g) g"

text \<open>
  The raw sums as the specification words them: over the cells with more home goals
  than away goals (row index above column index), over the diagonal cells, over the
  cells with fewer home goals than away goals, and over all cells.
\<close>

definition home_raw :: "real list list \<Rightarrow> real" where
  "home_raw g = (\<Sum>h<length g. \<Sum>a<ncols g. if a < h then g ! h ! a else 0)"

definition draw_raw :: "real list list \<Rightarrow> real" where
  "draw_raw g = (\<Sum>h<length g. \<Sum>a<ncols g. if a = h then g ! h ! a else 0)"

definition away_raw :: "real list list \<Rightarrow> real" where
  "away_raw g = (\<Sum>h<length g. \<Sum>a<ncols g. if h < a then g ! h ! a else 0)"

definition total_mass :: "real list list \<Rightarrow> real" where
  "total_mass g = (\<Sum>h<length g. \<Sum>a<ncols g. g ! h ! a)"

section \<open>Properties\<close>

subsection \<open>Team form summarizer\<close>

lemma stats_loop_all_invalid:
  "\<forall>m \<in> set ms. valid_score m = None \<Longrightarrow> stats_loop team_id t ms = t"
  by (induction ms arbitrary: t) simp_all

text \<open>
  C1, as the code has it. On the empty match sequence \<^verbatim>\<open>recent_team_stats\<close> returns
  the default summary (1.2, 1.1, 1.5, 0.0). On a non-empty sequence in which every
  record lacks a full-time home or away goal count, the early return is not taken:
  all four accumulators stay 0, \<^verbatim>\<open>games = max(count, 1) = 1\<close>, and the result is
  (0.0, 0.0, 0.0, -1.0).
\<close>

theorem recent_team_stats_no_valid:
  "recent_team_stats team_id [] = default_summary \<and>
   (matches \<noteq> [] \<longrightarrow> (\<forall>m \<in> set matches. valid_score m = None) \<longrightarrow>
      recent_team_stats team_id matches =
        \<lparr>gf = 0, ga = 0, pts_per_game = 0, form_val = - 1\<rparr>)"
  by (simp add: recent_team_stats_def stats_loop_all_invalid)

theorem recent_team_stats_no_valid_witness:
  "[\<lparr>homeTeamId = 1, awayTeamId = 2, fullTime = Some (None, Some 2), winner = None\<rparr>] \<noteq> [] \<and>
   valid_score \<lparr>homeTeamId = 1, awayTeamId = 2, fullTime = Some (None, Some 2), winner = None\<rparr> =
     None \<and>
   recent_team_stats 1 [] = default_summary \<and>
   recent_team_stats 1
     [\<lparr>homeTeamId = 1, awayTeamId = 2, fullTime = Some (None, Some 2), winner = None\<rparr>] =
     \<lparr>gf = 0, ga = 0, pts_per_game = 0, form_val = - 1\<rparr>"
  using recent_team_stats_no_valid
    [of 1 "[\<lparr>homeTeamId = 1, awayTeamId = 2, fullTime = Some (None, Some 2), winner = None\<rparr>]"]
  by (simp add: valid_score_def)

text \<open>
  C1 as stated fails: a single record whose \<^verbatim>\<open>fullTime\<close> is \<^verbatim>\<open>null\<close> is an input with
  zero valid matches, and the summary returned is not the default one.
\<close>

theorem recent_team_stats_default_counterexample:
  "valid_score \<lparr>homeTeamId = 1, awayTeamId = 2, fullTime = None, winner = None\<rparr> = None \<and>
   recent_team_stats 1 [\<lparr>homeTeamId = 1, awayTeamId = 2, fullTime = None, winner = None\<rparr>] =
     \<lparr>gf = 0, ga = 0, pts_per_game = 0, form_val = - 1\<rparr> \<and>
   recent_team_stats 1 [\<lparr>homeTeamId = 1, awayTeamId = 2, fullTime = None, winner = None\<rparr>] \<noteq>
     default_summary"
  by (simp add: recent_team_stats_def valid_score_def default_summary_def)

subsection \<open>Expected goal rate estimator\<close>

lemma split_from_Nil_iff:
  "split_from w s = [] \<longleftrightarrow> w = [] \<and> list_all is_space s"
  by (induction s arbitrary: w) auto

lemma str_split_Nil_iff: "str_split s = [] \<longleftrightarrow> list_all is_space s"
  by (simp add: str_split_def split_from_Nil_iff)

lemma rain_or_snow_rain: "rain_or_snow ''rain'' = Inr True"
  by (simp add: rain_or_snow_def str_split_def is_space_def str_lower_def lower_char_def)

lemma rain_or_snow_clear: "rain_or_snow ''clear'' = Inr False"
  by (simp add: rain_or_snow_def str_split_def is_space_def str_lower_def lower_char_def)

lemma rain_or_snow_light_rain: "rain_or_snow ''light rain'' = Inr False"
  by (simp add: rain_or_snow_def str_split_def is_space_def str_lower_def lower_char_def)

lemma rain_or_snow_empty: "rain_or_snow [] = Inl IndexError"
  by (simp add: rain_or_snow_def str_split_def)

lemma estimate_wet:
  "rain_or_snow desc = Inr wet \<Longrightarrow>
   estimate hs as' desc =
     Inr (min ((if wet then 95 / 100 else 1) *
                 (max (2 / 10) (65 / 100 * gf hs + 35 / 100 * ga as') * (112 / 100))) (32 / 10),
          min ((if wet then 95 / 100 else 1) *
                 max (2 / 10) (65 / 100 * gf as' + 35 / 100 * ga hs)) (32 / 10))"
  by (cases wet) (simp_all add: estimate_def)

lemma estimate_Inr_wet:
  "estimate hs as' desc = Inr r \<Longrightarrow> \<exists>wet. rain_or_snow desc = Inr wet"
  by (cases "rain_or_snow desc") (simp_all add: estimate_def)

lemma estimate_zero_rain:
  "estimate \<lparr>gf = 0, ga = 0, pts_per_game = 0, form_val = - 1\<rparr>
     \<lparr>gf = 0, ga = 0, pts_per_game = 0, form_val = - 1\<rparr> ''rain'' = Inr (133 / 625, 19 / 100)"
  by (simp add: estimate_wet [OF rain_or_snow_rain])

lemma estimate_default_clear:
  "estimate default_summary default_summary ''clear'' = Inr (1631 / 1250, 233 / 200)"
  by (simp add: estimate_wet [OF rain_or_snow_clear] default_summary_def)

lemma estimate_default_light_rain:
  "estimate default_summary default_summary ''light rain'' = Inr (1631 / 1250, 233 / 200)"
  by (simp add: estimate_wet [OF rain_or_snow_light_rain] default_summary_def)

lemma estimate_default_rain:
  "estimate default_summary default_summary ''rain'' = Inr (30989 / 25000, 4427 / 4000)"
  by (simp add: estimate_wet [OF rain_or_snow_rain] default_summary_def)

text \<open>
  C2, as the code has it. Whenever the estimator returns, the home rate lies in
  [0.2, 3.2] and the away rate in [0.19, 3.2]; the away rate is at least 0.2 when the
  first word of the description is neither rain nor snow. The floor 0.2 is applied
  before the factors 1.12 and 0.95, so a floored away rate is dampened to 0.19.
\<close>

theorem estimate_rate_bounds:
  assumes "estimate hs as' desc = Inr (lh, la)"
  shows "2 / 10 \<le> lh \<and> lh \<le> 32 / 10 \<and> 19 / 100 \<le> la \<and> la \<le> 32 / 10 \<and>
         (rain_or_snow desc = Inr False \<longrightarrow> 2 / 10 \<le> la)"
proof -
  from assms obtain wet where w: "rain_or_snow desc = Inr wet"
    using estimate_Inr_wet by blast
  define bh where "bh = max (2 / 10) (65 / 100 * gf hs + 35 / 100 * ga as')"
  define ba where "ba = max (2 / 10) (65 / 100 * gf as' + 35 / 100 * ga hs)"
  have bh: "2 / 10 \<le> bh" and ba: "2 / 10 \<le> ba"
    by (simp_all add: bh_def ba_def)
  from assms have lh: "lh = min ((if wet then 95 / 100 else 1) * (bh * (112 / 100))) (32 / 10)"
    and la: "la = min ((if wet then 95 / 100 else 1) * ba) (32 / 10)"
    unfolding estimate_wet [OF w] bh_def ba_def by simp_all
  show ?thesis
  proof (cases wet)
    case True
    with bh ba show ?thesis by (simp add: lh la w min_def)
  next
    case False
    with bh ba show ?thesis by (simp add: lh la w min_def)
  qed
qed

theorem estimate_rate_bounds_witness:
  "estimate default_summary default_summary ''clear'' = Inr (1631 / 1250, 233 / 200) \<and>
   rain_or_snow ''clear'' = Inr False \<and>
   (2 / 10 :: real) \<le> 1631 / 1250 \<and> (1631 / 1250 :: real) \<le> 32 / 10 \<and>
   (19 / 100 :: real) \<le> 233 / 200 \<and> (233 / 200 :: real) \<le> 32 / 10 \<and>
   (2 / 10 :: real) \<le> 233 / 200"
  using estimate_rate_bounds [OF estimate_default_clear] rain_or_snow_clear estimate_default_clear
  by simp

text \<open>
  C2 as stated fails: for two summaries with all rates 0 and the description "rain"
  the away rate is 0.2 * 0.95 = 0.19, below 0.2.
\<close>

theorem estimate_floor_counterexample:
  "estimate \<lparr>gf = 0, ga = 0, pts_per_game = 0, form_val = - 1\<rparr>
     \<lparr>gf = 0, ga = 0, pts_per_game = 0, form_val = - 1\<rparr> ''rain'' = Inr (133 / 625, 19 / 100) \<and>
   \<not> (2 / 10 :: real) \<le> 19 / 100"
  by (simp add: estimate_zero_rain)

text \<open>
  C3, as the code has it. The description "light rain" has the first word "light", so
  no dampening applies and the rates equal those for "clear". For a description whose
  lowercase first word is "rain" or "snow", each rate is 0.95 times the rate for
  "clear", provided the rates for "clear" are below the cap 3.2.
\<close>

theorem estimate_light_rain:
  "estimate hs as' ''light rain'' = estimate hs as' ''clear'' \<and>
   (rain_or_snow desc = Inr True \<longrightarrow> estimate hs as' ''clear'' = Inr (ch, ca) \<longrightarrow>
      ch < 32 / 10 \<longrightarrow> ca < 32 / 10 \<longrightarrow>
      estimate hs as' desc = Inr (95 / 100 * ch, 95 / 100 * ca))"
proof -
  have "estimate hs as' ''light rain'' = estimate hs as' ''clear''"
    by (simp only: estimate_wet [OF rain_or_snow_light_rain] estimate_wet [OF rain_or_snow_clear])
  moreover have "estimate hs as' desc = Inr (95 / 100 * ch, 95 / 100 * ca)"
    if w: "rain_or_snow desc = Inr True" and c: "estimate hs as' ''clear'' = Inr (ch, ca)"
      and h: "ch < 32 / 10" and a: "ca < 32 / 10"
  proof -
    define bh where "bh = max (2 / 10) (65 / 100 * gf hs + 35 / 100 * ga as') * (112 / 100)"
    define ba where "ba = max (2 / 10) (65 / 100 * gf as' + 35 / 100 * ga hs)"
    from c have ch: "ch = min bh (32 / 10)" and ca: "ca = min ba (32 / 10)"
      unfolding estimate_wet [OF rain_or_snow_clear] bh_def ba_def by simp_all
    from h a have "ch = bh" "ca = ba"
      by (simp_all add: ch ca min_def split: if_splits)
    moreover have "estimate hs as' desc =
        Inr (min (95 / 100 * bh) (32 / 10), min (95 / 100 * ba) (32 / 10))"
      unfolding estimate_wet [OF w] bh_def ba_def by simp
    ultimately show ?thesis
      using h a by (simp add: min_def)
  qed
  ultimately show ?thesis by blast
qed

theorem estimate_light_rain_witness:
  "rain_or_snow ''rain'' = Inr True \<and>
   estimate default_summary default_summary ''clear'' = Inr (1631 / 1250, 233 / 200) \<and>
   (1631 / 1250 :: real) < 32 / 10 \<and> (233 / 200 :: real) < 32 / 10 \<and>
   estimate default_summary default_summary ''light rain'' =
     estimate default_summary default_summary ''clear'' \<and>
   estimate default_summary default_summary ''rain'' =
     Inr (95 / 100 * (1631 / 1250), 95 / 100 * (233 / 200))"
  using estimate_light_rain
    [of default_summary default_summary "''rain''" "1631 / 1250" "233 / 200"]
    rain_or_snow_rain estimate_default_clear
  by simp

text \<open>
  C3 as stated fails: for two default summaries the rates for "light rain" are those
  for "clear", (1.3048, 1.165), and 1.3048 differs from 0.95 * 1.3048 by more than
  0.06.
\<close>

theorem estimate_light_rain_counterexample:
  "estimate default_summary default_summary ''light rain'' = Inr (1631 / 1250, 233 / 200) \<and>
   estimate default_summary default_summary ''clear'' = Inr (1631 / 1250, 233 / 200) \<and>
   \<bar>1631 / 1250 - 95 / 100 * (1631 / 1250 :: real)\<bar> > 6 / 100 \<and>
   \<bar>233 / 200 - 95 / 100 * (233 / 200 :: real)\<bar> > 5 / 100"
  by (simp add: estimate_default_light_rain estimate_default_clear)

text \<open>
  C8, as the code has it. For every pair of summaries and every description that
  holds at least one character that is not whitespace, the estimator returns a pair
  of rates; equal inputs give equal results.
\<close>

theorem estimate_returns:
  "(\<not> list_all is_space desc \<longrightarrow> (\<exists>lh la. estimate hs as' desc = Inr (lh, la))) \<and>
   (hs = hs2 \<and> as' = as2 \<and> desc = desc2 \<longrightarrow> estimate hs as' desc = estimate hs2 as2 desc2)"
proof -
  have "\<exists>lh la. estimate hs as' desc = Inr (lh, la)" if "\<not> list_all is_space desc"
  proof -
    from that have "str_split desc \<noteq> []"
      by (simp add: str_split_Nil_iff)
    then obtain wet where "rain_or_snow desc = Inr wet"
      by (cases "str_split desc") (simp_all add: rain_or_snow_def)
    then show ?thesis
      by (simp add: estimate_wet)
  qed
  then show ?thesis by blast
qed

theorem estimate_returns_witness:
  "\<not> list_all is_space ''clear'' \<and>
   (\<exists>lh la. estimate default_summary default_summary ''clear'' = Inr (lh, la))"
  using estimate_returns [of "''clear''" default_summary default_summary]
  by (simp add: is_space_def)

text \<open>
  C8 as stated fails: on the empty description \<^verbatim>\<open>desc.split()[0]\<close> raises
  \<^verbatim>\<open>IndexError\<close>.
\<close>

theorem estimate_empty_counterexample:
  "estimate default_summary default_summary [] = Inl IndexError"
  by (simp add: estimate_def rain_or_snow_empty)

subsection \<open>The grid builder: loops as a table\<close>

lemma fold_set_cell:
  "h < length g \<Longrightarrow>
   fold (\<lambda>a g. set_cell g h a (f a)) [0..<k] g =
     g[h := fold (\<lambda>a r. r[a := f a]) [0..<k] (g ! h)]"
  by (induction k) (simp_all add: set_cell_def)

lemma fold_update_row:
  "k \<le> length row \<Longrightarrow>
   fold (\<lambda>a r. r[a := f a]) [0..<k] row = map f [0..<k] @ drop k row"
proof (induction k)
  case 0
  then show ?case by simp
next
  case (Suc k)
  then have k: "k < length row" by simp
  have "(map f [0..<k] @ drop k row)[k := f k] = map f [0..<k] @ (drop k row)[0 := f k]"
    by (simp add: list_update_append)
  also have "(drop k row)[0 := f k] = f k # drop (Suc k) row"
    using k by (simp add: Cons_nth_drop_Suc [symmetric])
  finally show ?case
    using Suc by simp
qed

lemma fill_row_eq:
  assumes "h < length g" and "length (g ! h) = n"
  shows "fill_row lh la n h g =
           g[h := map (\<lambda>a. poisson_prob h lh * poisson_prob a la) [0..<n]]"
  using assms by (simp add: fill_row_def fold_set_cell fold_update_row)

lemma fold_fill_row:
  "k \<le> n \<Longrightarrow>
   fold (fill_row lh la n) [0..<k] (zeros n n) =
     map (\<lambda>h. map (\<lambda>a. poisson_prob h lh * poisson_prob a la) [0..<n]) [0..<k] @
     replicate (n - k) (replicate n 0)"
proof (induction k)
  case 0
  then show ?case by (simp add: zeros_def)
next
  case (Suc k)
  let ?F = "\<lambda>h. map (\<lambda>a. poisson_prob h lh * poisson_prob a la) [0..<n]"
  let ?g = "map ?F [0..<k] @ replicate (n - k) (replicate n 0)"
  from Suc have k: "k < n" by simp
  then have len: "k < length ?g" and row: "length (?g ! k) = n"
    by (simp_all add: nth_append)
  have rep: "replicate (n - k) (replicate n (0::real)) =
      replicate n 0 # replicate (n - Suc k) (replicate n 0)"
    using k by (simp add: replicate_Suc [symmetric] Suc_diff_Suc del: replicate_Suc)
  have "fold (fill_row lh la n) [0..<Suc k] (zeros n n) = fill_row lh la n k ?g"
    using Suc by simp
  also have "\<dots> = ?g[k := ?F k]"
    using fill_row_eq [OF len row] .
  also have "\<dots> = map ?F [0..<k] @ (?F k # replicate (n - Suc k) (replicate n 0))"
    by (simp add: list_update_append rep)
  finally show ?case by simp
qed

lemma score_matrix_table:
  "0 \<le> max_goals + 1 \<Longrightarrow>
   score_matrix lh la max_goals =
     Inr (map (\<lambda>h. map (\<lambda>a. poisson_prob h lh * poisson_prob a la)
                 [0..<nat (max_goals + 1)]) [0..<nat (max_goals + 1)])"
  by (simp add: score_matrix_def Let_def fold_fill_row)

subsection \<open>The numpy reductions as sums over cells\<close>

lemma sum_list_enumerate:
  "sum_list (map (\<lambda>(i, x). f i x) (enumerate 0 xs)) = (\<Sum>i<length xs. f i (xs ! i))"
proof -
  have "sum_list (map (\<lambda>(i, x). f i x) (enumerate 0 xs)) =
      (\<Sum>i = 0..<length xs. map (\<lambda>(i, x). f i x) (enumerate 0 xs) ! i)"
    by (simp add: sum_list_sum_nth)
  also have "\<dots> = (\<Sum>i = 0..<length xs. f i (xs ! i))"
    by (rule sum.cong) (simp_all add: nth_enumerate_eq)
  finally show ?thesis by (simp add: atLeast0LessThan)
qed

lemma arr_sum_tril:
  "arr_sum (tril g k) =
     (\<Sum>i<length g. \<Sum>j<length (g ! i). if int j \<le> int i + k then g ! i ! j else 0)"
proof -
  let ?R = "\<lambda>i row. sum_list (map (\<lambda>(j, x). if int j \<le> int i + k then x else 0)
                                  (enumerate 0 row))"
  have "arr_sum (tril g k) = sum_list (map (\<lambda>(i, row). ?R i row) (enumerate 0 g))"
    unfolding arr_sum_def tril_def map_map
    by (rule arg_cong [where f = sum_list], rule map_cong [OF refl]) auto
  also have "\<dots> = (\<Sum>i<length g. ?R i (g ! i))"
    by (rule sum_list_enumerate)
  also have "\<dots> =
      (\<Sum>i<length g. \<Sum>j<length (g ! i). if int j \<le> int i + k then g ! i ! j else 0)"
    by (rule sum.cong [OF refl])
       (rule sum_list_enumerate [where f = "\<lambda>j x. if int j \<le> int i + k then x else 0" for i])
  finally show ?thesis .
qed

lemma arr_sum_triu:
  "arr_sum (triu g k) =
     (\<Sum>i<length g. \<Sum>j<length (g ! i). if int i + k \<le> int j then g ! i ! j else 0)"
proof -
  let ?R = "\<lambda>i row. sum_list (map (\<lambda>(j, x). if int i + k \<le> int j then x else 0)
                                  (enumerate 0 row))"
  have "arr_sum (triu g k) = sum_list (map (\<lambda>(i, row). ?R i row) (enumerate 0 g))"
    unfolding arr_sum_def triu_def map_map
    by (rule arg_cong [where f = sum_list], rule map_cong [OF refl]) auto
  also have "\<dots> = (\<Sum>i<length g. ?R i (g ! i))"
    by (rule sum_list_enumerate)
  also have "\<dots> =
      (\<Sum>i<length g. \<Sum>j<length (g ! i). if int i + k \<le> int j then g ! i ! j else 0)"
    by (rule sum.cong [OF refl])
       (rule sum_list_enumerate [where f = "\<lambda>j x. if int i + k \<le> int j then x else 0" for i])
  finally show ?thesis .
qed

lemma rect_row: "rect g \<Longrightarrow> i < length g \<Longrightarrow> length (g ! i) = ncols g"
  by (simp add: rect_def list_all_length)

lemma home_raw_eq: "rect g \<Longrightarrow> arr_sum (tril g (- 1)) = home_raw g"
  unfolding arr_sum_tril home_raw_def
  by (intro sum.cong refl) (auto simp: rect_row)

lemma away_raw_eq: "rect g \<Longrightarrow> arr_sum (triu g 1) = away_raw g"
  unfolding arr_sum_triu away_raw_def
  by (intro sum.cong refl) (auto simp: rect_row)

lemma draw_raw_eq: "trace g = draw_raw g"
proof -
  have "draw_raw g = (\<Sum>h<length g. if h < ncols g then g ! h ! h else 0)"
    unfolding draw_raw_def by (intro sum.cong refl) (simp add: sum.delta')
  also have "\<dots> = (\<Sum>h \<in> {..<length g} \<inter> {h. h < ncols g}. g ! h ! h)"
    by (simp add: sum.inter_restrict)
  also have "{..<length g} \<inter> {h. h < ncols g} = {..<min (length g) (ncols g)}"
    by auto
  finally show ?thesis
    by (simp add: trace_def sum_list_sum_nth atLeast0LessThan)
qed

lemma raw_sums_total: "home_raw g + draw_raw g + away_raw g = total_mass g"
proof -
  have "home_raw g + draw_raw g + away_raw g =
      (\<Sum>h<length g. \<Sum>a<ncols g.
         (if a < h then g ! h ! a else 0) + (if a = h then g ! h ! a else 0) +
         (if h < a then g ! h ! a else 0))"
    by (simp add: home_raw_def draw_raw_def away_raw_def sum.distrib)
  also have "\<dots> = total_mass g"
    unfolding total_mass_def by (intro sum.cong refl) auto
  finally show ?thesis .
qed

lemma outcome_probs_raw:
  "rect g \<Longrightarrow>
   outcome_probs g =
     (np_div (home_raw g) (total_mass g), np_div (draw_raw g) (total_mass g),
      np_div (away_raw g) (total_mass g))"
  by (simp add: outcome_probs_def Let_def home_raw_eq away_raw_eq draw_raw_eq raw_sums_total)

subsection \<open>The first maximum of a flattened grid\<close>

lemma argmax_loop_first_max:
  assumes "best < length pre" and "bv = pre ! best"
    and "\<forall>j<length pre. pre ! j \<le> bv" and "\<forall>j<best. pre ! j < bv"
  shows "argmax_loop xs (length pre) best bv < length (pre @ xs) \<and>
         (\<forall>j<length (pre @ xs). (pre @ xs) ! j \<le> (pre @ xs) ! argmax_loop xs (length pre) best bv) \<and>
         (\<forall>j<argmax_loop xs (length pre) best bv.
            (pre @ xs) ! j < (pre @ xs) ! argmax_loop xs (length pre) best bv)"
  using assms
proof (induction xs arbitrary: pre best bv)
  case Nil
  then show ?case by simp
next
  case (Cons x xs)
  show ?case
  proof (cases "bv < x")
    case True
    have "length pre < length (pre @ [x])" by simp
    moreover have "x = (pre @ [x]) ! length pre" by simp
    moreover have "\<forall>j<length (pre @ [x]). (pre @ [x]) ! j \<le> x"
      using Cons.prems(3) True by (auto simp: nth_append less_Suc_eq dest: order.strict_implies_order)
    moreover have "\<forall>j<length pre. (pre @ [x]) ! j < x"
      using Cons.prems(3) True by (auto simp: nth_append)
    ultimately have "argmax_loop xs (length (pre @ [x])) (length pre) x < length ((pre @ [x]) @ xs) \<and>
         (\<forall>j<length ((pre @ [x]) @ xs).
            ((pre @ [x]) @ xs) ! j \<le> ((pre @ [x]) @ xs) ! argmax_loop xs (length (pre @ [x])) (length pre) x) \<and>
         (\<forall>j<argmax_loop xs (length (pre @ [x])) (length pre) x.
            ((pre @ [x]) @ xs) ! j < ((pre @ [x]) @ xs) ! argmax_loop xs (length (pre @ [x])) (length pre) x)"
      by (rule Cons.IH)
    with True show ?thesis by simp
  next
    case False
    have "best < length (pre @ [x])"
      using Cons.prems(1) by simp
    moreover have "bv = (pre @ [x]) ! best"
      using Cons.prems(1,2) by (simp add: nth_append)
    moreover have "\<forall>j<length (pre @ [x]). (pre @ [x]) ! j \<le> bv"
      using Cons.prems(3) False by (auto simp: nth_append less_Suc_eq)
    moreover have "\<forall>j<best. (pre @ [x]) ! j < bv"
      using Cons.prems(1,4) by (auto simp: nth_append)
    ultimately have "argmax_loop xs (length (pre @ [x])) best bv < length ((pre @ [x]) @ xs) \<and>
         (\<forall>j<length ((pre @ [x]) @ xs).
            ((pre @ [x]) @ xs) ! j \<le> ((pre @ [x]) @ xs) ! argmax_loop xs (length (pre @ [x])) best bv) \<and>
         (\<forall>j<argmax_loop xs (length (pre @ [x])) best bv.
            ((pre @ [x]) @ xs) ! j < ((pre @ [x]) @ xs) ! argmax_loop xs (length (pre @ [x])) best bv)"
      by (rule Cons.IH)
    with False show ?thesis by simp
  qed
qed

lemma argmax_first_max:
  assumes "xs \<noteq> []"
  shows "\<exists>k. argmax xs = Inr k \<and> k < length xs \<and>
           (\<forall>j<length xs. xs ! j \<le> xs ! k) \<and> (\<forall>j<k. xs ! j < xs ! k)"
proof -
  from assms obtain x rest where xs: "xs = x # rest"
    by (cases xs) auto
  have "argmax_loop rest (length [x]) 0 x < length ([x] @ rest) \<and>
         (\<forall>j<length ([x] @ rest). ([x] @ rest) ! j \<le> ([x] @ rest) ! argmax_loop rest (length [x]) 0 x) \<and>
         (\<forall>j<argmax_loop rest (length [x]) 0 x.
            ([x] @ rest) ! j < ([x] @ rest) ! argmax_loop rest (length [x]) 0 x)"
    by (rule argmax_loop_first_max) simp_all
  then show ?thesis
    by (simp add: xs argmax_def)
qed

lemma length_concat_rows:
  "\<forall>row \<in> set g. length row = m \<Longrightarrow> length (concat g) = length g * m"
  by (induction g) simp_all

lemma nth_concat_rows:
  "\<forall>row \<in> set g. length row = m \<Longrightarrow> i < length g \<Longrightarrow> j < m \<Longrightarrow>
   concat g ! (i * m + j) = g ! i ! j"
proof (induction g arbitrary: i)
  case Nil
  then show ?case by simp
next
  case (Cons r g)
  show ?case
  proof (cases i)
    case 0
    with Cons.prems show ?thesis by (simp add: nth_append)
  next
    case (Suc i')
    with Cons.prems have "concat g ! (i' * m + j) = g ! i' ! j"
      by (intro Cons.IH) simp_all
    with Suc Cons.prems show ?thesis
      by (simp add: nth_append add.assoc)
  qed
qed

lemma rect_rows: "rect g \<Longrightarrow> \<forall>row \<in> set g. length row = ncols g"
  by (simp add: rect_def list_all_iff)

lemma scoreline_first_max:
  assumes r: "rect g" and n: "g \<noteq> []" and m: "0 < ncols g"
  shows "\<exists>h a. most_likely_scoreline g = Inr (h, a) \<and> h < length g \<and> a < ncols g \<and>
           (\<forall>i<length g. \<forall>j<ncols g. g ! i ! j \<le> g ! h ! a) \<and>
           (\<forall>i<length g. \<forall>j<ncols g. i < h \<or> (i = h \<and> j < a) \<longrightarrow> g ! i ! j < g ! h ! a)"
proof -
  let ?m = "ncols g"
  note rows = rect_rows [OF r]
  have len: "length (concat g) = length g * ?m"
    using rows by (rule length_concat_rows)
  with n m have "concat g \<noteq> []"
    by (metis length_0_conv mult_is_0 less_numeral_extra(3))
  then obtain k where k: "argmax (concat g) = Inr k" "k < length (concat g)"
    and mx: "\<forall>j<length (concat g). concat g ! j \<le> concat g ! k"
    and fst: "\<forall>j<k. concat g ! j < concat g ! k"
    using argmax_first_max by blast
  let ?h = "k div ?m" and ?a = "k mod ?m"
  have h: "?h < length g"
    using k(2) len m by (simp add: less_mult_imp_div_less)
  have a: "?a < ?m"
    using m by simp
  have cell: "concat g ! (i * ?m + j) = g ! i ! j" if "i < length g" "j < ?m" for i j
    using rows that by (rule nth_concat_rows)
  have kk: "?h * ?m + ?a = k"
    by simp
  have best: "concat g ! k = g ! ?h ! ?a"
    using cell [OF h a] by (simp only: kk)
  have idx: "i * ?m + j < length (concat g)" if "i < length g" "j < ?m" for i j
  proof -
    from that have "i * ?m + j < Suc i * ?m" by simp
    also from that have "\<dots> \<le> length g * ?m"
      by (intro mult_le_mono1) simp
    finally show ?thesis by (simp add: len)
  qed
  have before: "i * ?m + j < k" if "j < ?m" "i < ?h \<or> (i = ?h \<and> j < ?a)" for i j
  proof -
    from that(2) show ?thesis
    proof
      assume "i < ?h"
      with that(1) have "i * ?m + j < Suc i * ?m" by simp
      also from \<open>i < ?h\<close> have "\<dots> \<le> ?h * ?m"
        by (intro mult_le_mono1) simp
      also have "\<dots> \<le> k" by simp
      finally show ?thesis .
    next
      assume c: "i = ?h \<and> j < ?a"
      then have "?h * ?m + j < ?h * ?m + ?a"
        by (intro add_strict_left_mono) simp
      also have "\<dots> = k" by (rule kk)
      finally show ?thesis using c by simp
    qed
  qed
  have "most_likely_scoreline g = Inr (?h, ?a)"
    using k len by (simp add: most_likely_scoreline_def unravel_index_def)
  moreover have "\<forall>i<length g. \<forall>j<?m. g ! i ! j \<le> g ! ?h ! ?a"
    using mx idx cell best by metis
  moreover have "\<forall>i<length g. \<forall>j<?m. i < ?h \<or> (i = ?h \<and> j < ?a) \<longrightarrow> g ! i ! j < g ! ?h ! ?a"
    using fst before cell best by metis
  ultimately show ?thesis
    using h a by blast
qed

subsection \<open>Outcome probability aggregator\<close>

lemma np_div_finite: "s \<noteq> 0 \<Longrightarrow> np_div x s = Finite (x / s)"
  by (simp add: np_div_def)

lemma np_div_zero: "\<not> is_finite (np_div x 0)"
  by (simp add: np_div_def)

lemma grid3_rect: "rect [[1, 2, 3], [4, 5, 6], [7, 8, 9]]"
  by (simp add: rect_def ncols_def)

lemma grid3_sums:
  "home_raw [[1, 2, 3], [4, 5, 6], [7, 8, 9]] = 19"
  "draw_raw [[1, 2, 3], [4, 5, 6], [7, 8, 9]] = 15"
  "away_raw [[1, 2, 3], [4, 5, 6], [7, 8, 9]] = 11"
  "total_mass [[1, 2, 3], [4, 5, 6], [7, 8, 9]] = 45"
  by (simp_all add: home_raw_def draw_raw_def away_raw_def total_mass_def ncols_def)

text \<open>
  C5. For every rectangular grid with nonzero total mass, \<^verbatim>\<open>outcome_probs\<close> returns
  the sum of the cells below the diagonal (home goals above away goals), the sum of
  the diagonal cells and the sum of the cells above the diagonal, each divided by
  their total, which is the total mass of the grid; the three results sum to 1.
\<close>

theorem outcome_probs_normalised:
  assumes "rect g" and "total_mass g \<noteq> 0"
  shows "outcome_probs g =
           (Finite (home_raw g / (home_raw g + draw_raw g + away_raw g)),
            Finite (draw_raw g / (home_raw g + draw_raw g + away_raw g)),
            Finite (away_raw g / (home_raw g + draw_raw g + away_raw g))) \<and>
         home_raw g + draw_raw g + away_raw g = total_mass g \<and>
         home_raw g / (home_raw g + draw_raw g + away_raw g) +
         draw_raw g / (home_raw g + draw_raw g + away_raw g) +
         away_raw g / (home_raw g + draw_raw g + away_raw g) = 1"
proof -
  have t: "home_raw g + draw_raw g + away_raw g = total_mass g"
    by (rule raw_sums_total)
  have "home_raw g / total_mass g + draw_raw g / total_mass g + away_raw g / total_mass g =
      (home_raw g + draw_raw g + away_raw g) / total_mass g"
    by (simp add: add_divide_distrib)
  also have "\<dots> = 1"
    using assms(2) by (simp add: t)
  finally show ?thesis
    using assms by (simp add: t outcome_probs_raw np_div_finite)
qed

theorem outcome_probs_normalised_witness:
  "rect [[1, 2, 3], [4, 5, 6], [7, 8, 9]] \<and>
   total_mass [[1, 2, 3], [4, 5, 6], [7, 8, 9]] \<noteq> 0 \<and>
   outcome_probs [[1, 2, 3], [4, 5, 6], [7, 8, 9]] =
     (Finite (19 / 45), Finite (15 / 45), Finite (11 / 45)) \<and>
   (19 / 45 + 15 / 45 + 11 / 45 :: real) = 1"
  using outcome_probs_normalised [of "[[1, 2, 3], [4, 5, 6], [7, 8, 9]]"] grid3_rect
  by (simp add: grid3_sums)

text \<open>
  C7, as the code has it. \<^verbatim>\<open>outcome_probs\<close> has no guard against a zero total: it
  divides in every case. For a rectangular grid the three results are finite exactly
  when the total mass is nonzero; at total mass zero each of them is \<^verbatim>\<open>nan\<close> or
  infinite.
\<close>

theorem outcome_probs_finite_iff:
  assumes "rect g"
  shows "(total_mass g \<noteq> 0 \<longrightarrow>
            (\<exists>p d a. outcome_probs g = (Finite p, Finite d, Finite a))) \<and>
         (total_mass g = 0 \<longrightarrow>
            (\<exists>p d a. outcome_probs g = (p, d, a) \<and>
               \<not> is_finite p \<and> \<not> is_finite d \<and> \<not> is_finite a))"
  using assms by (simp add: outcome_probs_raw np_div_finite np_div_zero)

theorem outcome_probs_finite_iff_witness:
  "rect [[1, 2, 3], [4, 5, 6], [7, 8, 9]] \<and>
   total_mass [[1, 2, 3], [4, 5, 6], [7, 8, 9]] \<noteq> 0 \<and>
   (\<exists>p d a. outcome_probs [[1, 2, 3], [4, 5, 6], [7, 8, 9]] = (Finite p, Finite d, Finite a)) \<and>
   rect [[1, - 1], [0, 0]] \<and> total_mass [[1, - 1], [0, 0]] = 0 \<and>
   (\<exists>p d a. outcome_probs [[1, - 1], [0, 0]] = (p, d, a) \<and>
      \<not> is_finite p \<and> \<not> is_finite d \<and> \<not> is_finite a)"
proof -
  have r: "rect [[1, - 1], [0, 0]]"
    by (simp add: rect_def ncols_def)
  have z: "total_mass [[1, - 1], [0, 0]] = 0"
    by (simp add: total_mass_def ncols_def)
  show ?thesis
    using outcome_probs_finite_iff [OF grid3_rect] outcome_probs_finite_iff [OF r] grid3_rect r z
    by (simp add: grid3_sums)
qed

text \<open>
  C7 as stated fails: on the grid with the single cell 0 the total is 0, the division
  is carried out and all three results are \<^verbatim>\<open>nan\<close>.
\<close>

theorem outcome_probs_zero_mass_counterexample:
  "total_mass [[0]] = 0 \<and> outcome_probs [[0]] = (NaN, NaN, NaN)"
  by (simp add: total_mass_def ncols_def outcome_probs_def arr_sum_def tril_def triu_def
      trace_def np_div_def)

text \<open>
  C6. For every non-empty rectangular grid the scoreline selection returns the
  coordinates of a cell that holds the maximum, and every cell before it in row-major
  order is strictly smaller; in particular, when the cell (0,0) holds the maximum, as
  in a grid with equal maxima at (0,0) and (1,1), it returns (0,0).
\<close>

theorem most_likely_scoreline_first_max:
  assumes "rect g" and "g \<noteq> []" and "0 < ncols g"
  shows "(\<exists>h a. most_likely_scoreline g = Inr (h, a) \<and> h < length g \<and> a < ncols g \<and>
            (\<forall>i<length g. \<forall>j<ncols g. g ! i ! j \<le> g ! h ! a) \<and>
            (\<forall>i<length g. \<forall>j<ncols g.
               i < h \<or> (i = h \<and> j < a) \<longrightarrow> g ! i ! j < g ! h ! a)) \<and>
         ((\<forall>i<length g. \<forall>j<ncols g. g ! i ! j \<le> g ! 0 ! 0) \<longrightarrow>
            most_likely_scoreline g = Inr (0, 0))"
proof -
  from scoreline_first_max [OF assms] obtain h a where
    res: "most_likely_scoreline g = Inr (h, a)" and h: "h < length g" and a: "a < ncols g"
    and mx: "\<forall>i<length g. \<forall>j<ncols g. g ! i ! j \<le> g ! h ! a"
    and first: "\<forall>i<length g. \<forall>j<ncols g. i < h \<or> (i = h \<and> j < a) \<longrightarrow> g ! i ! j < g ! h ! a"
    by blast
  have "h = 0 \<and> a = 0" if top: "\<forall>i<length g. \<forall>j<ncols g. g ! i ! j \<le> g ! 0 ! 0"
  proof (rule ccontr)
    assume "\<not> (h = 0 \<and> a = 0)"
    then have "0 < h \<or> (0 = h \<and> 0 < a)" by auto
    moreover have "0 < length g" using assms(2) by simp
    ultimately have "g ! 0 ! 0 < g ! h ! a"
      using first assms(3) by blast
    moreover have "g ! h ! a \<le> g ! 0 ! 0"
      using top h a by blast
    ultimately show False by simp
  qed
  with res mx first h a show ?thesis by blast
qed

theorem most_likely_scoreline_first_max_witness:
  "rect [[3 / 10, 1 / 10], [1 / 10, 3 / 10]] \<and> [[3 / 10, 1 / 10], [1 / 10, 3 / 10 :: real]] \<noteq> [] \<and>
   0 < ncols [[3 / 10, 1 / 10], [1 / 10, 3 / 10]] \<and>
   [[3 / 10, 1 / 10], [1 / 10, 3 / 10 :: real]] ! 0 ! 0 =
     [[3 / 10, 1 / 10], [1 / 10, 3 / 10]] ! 1 ! 1 \<and>
   most_likely_scoreline [[3 / 10, 1 / 10], [1 / 10, 3 / 10]] = Inr (0, 0)"
proof -
  let ?g = "[[3 / 10, 1 / 10], [1 / 10, 3 / 10 :: real]]"
  have r: "rect ?g" and n: "?g \<noteq> []" and c: "0 < ncols ?g"
    by (simp_all add: rect_def ncols_def)
  have top: "\<forall>i<length ?g. \<forall>j<ncols ?g. ?g ! i ! j \<le> ?g ! 0 ! 0"
    by (simp add: ncols_def less_Suc_eq all_conj_distrib)
  from most_likely_scoreline_first_max [OF r n c] top
  have "most_likely_scoreline ?g = Inr (0, 0)" by blast
  with r c show ?thesis by simp
qed

subsection \<open>Poisson scoreline grid builder\<close>

lemma score_matrix_shape:
  assumes "0 \<le> max_goals + 1" and "score_matrix lh la max_goals = Inr g"
  shows "length g = nat (max_goals + 1)" and "ncols g = nat (max_goals + 1)" and "rect g"
proof -
  let ?n = "nat (max_goals + 1)"
  have g: "g = map (\<lambda>h. map (\<lambda>a. poisson_prob h lh * poisson_prob a la) [0..<?n]) [0..<?n]"
    using assms by (simp add: score_matrix_table)
  show "length g = ?n"
    by (simp add: g)
  show c: "ncols g = ?n"
    by (cases ?n) (simp_all add: g ncols_def upt_conv_Cons del: upt_Suc)
  show "rect g"
    unfolding rect_def c by (simp add: g list_all_iff)
qed

lemma score_matrix_nth:
  assumes "0 \<le> max_goals + 1" and "score_matrix lh la max_goals = Inr g"
    and "h < nat (max_goals + 1)" and "a < nat (max_goals + 1)"
  shows "g ! h ! a = poisson_prob h lh * poisson_prob a la"
proof -
  let ?n = "nat (max_goals + 1)"
  have g: "g = map (\<lambda>h. map (\<lambda>a. poisson_prob h lh * poisson_prob a la) [0..<?n]) [0..<?n]"
    using assms by (simp add: score_matrix_table)
  show ?thesis
    using assms(3,4) by (simp add: g)
qed

lemma exp_partial_sum_le:
  fixes x :: real
  assumes "0 \<le> x"
  shows "(\<Sum>m<n. x ^ m / fact m) \<le> exp x"
proof -
  obtain t where "exp x = (\<Sum>m<n. x ^ m / fact m) + exp t / fact n * x ^ n"
    using Maclaurin_exp_le [of x n] by blast
  moreover have "0 \<le> exp t / fact n * x ^ n"
    using assms by simp
  ultimately show ?thesis by linarith
qed

lemma exp_le_partial_sum:
  fixes x :: real
  assumes "0 \<le> x" and "x ^ n / fact n < 1"
  shows "exp x \<le> (\<Sum>m<n. x ^ m / fact m) / (1 - x ^ n / fact n)"
proof -
  obtain t where t: "\<bar>t\<bar> \<le> \<bar>x\<bar>"
    and e: "exp x = (\<Sum>m<n. x ^ m / fact m) + exp t / fact n * x ^ n"
    using Maclaurin_exp_le [of x n] by blast
  from t assms(1) have "exp t \<le> exp x" by simp
  then have "exp t * (x ^ n / fact n) \<le> exp x * (x ^ n / fact n)"
    using assms(1) by (intro mult_right_mono) simp_all
  with e have "exp x \<le> (\<Sum>m<n. x ^ m / fact m) + exp x * (x ^ n / fact n)"
    by simp
  then have "exp x * (1 - x ^ n / fact n) \<le> (\<Sum>m<n. x ^ m / fact m)"
    by (simp add: algebra_simps)
  with assms(2) show ?thesis
    by (simp add: pos_le_divide_eq)
qed

lemma exp_5_2_bounds: "(12166 / 1000 :: real) < exp (5 / 2) \<and> exp (5 / 2) < (12184 / 1000 :: real)"
proof -
  have "(\<Sum>m<10. (5 / 2 :: real) ^ m / fact m) \<le> exp (5 / 2)"
    by (rule exp_partial_sum_le) simp
  moreover have "(12166 / 1000 :: real) < (\<Sum>m<10. (5 / 2) ^ m / fact m)"
    by (simp add: eval_nat_numeral)
  moreover have "exp (5 / 2 :: real) \<le>
      (\<Sum>m<12. (5 / 2) ^ m / fact m) / (1 - (5 / 2) ^ 12 / fact 12)"
    by (rule exp_le_partial_sum) (simp_all add: eval_nat_numeral)
  moreover have "(\<Sum>m<12. (5 / 2 :: real) ^ m / fact m) / (1 - (5 / 2) ^ 12 / fact 12) <
      12184 / 1000"
    by (simp add: eval_nat_numeral)
  ultimately show ?thesis by linarith
qed

lemma poisson_cell_1_1:
  "\<bar>poisson_prob 1 (3 / 2) * poisson_prob 1 1 - 1232 / 10000\<bar> < 1 / 10000"
proof -
  have "poisson_prob 1 (3 / 2) * poisson_prob 1 1 = 3 / 2 * (exp (- (3 / 2)) * exp (- 1))"
    by (simp add: poisson_prob_def)
  also have "exp (- (3 / 2)) * exp (- 1) = exp (- (5 / 2) :: real)"
    by (simp add: exp_add [symmetric])
  also have "\<dots> = 1 / exp (5 / 2)"
    by (simp add: exp_minus inverse_eq_divide)
  finally have v: "poisson_prob 1 (3 / 2) * poisson_prob 1 1 = 3 / 2 * (1 / exp (5 / 2))" .
  define y :: real where "y = 1 / exp (5 / 2)"
  have "1 / (12184 / 1000 :: real) < 1 / exp (5 / 2)"
    using exp_5_2_bounds by (intro divide_strict_left_mono) simp_all
  then have lo: "1000 / 12184 < y"
    by (simp add: y_def)
  have "1 / exp (5 / 2) < 1 / (12166 / 1000 :: real)"
    using exp_5_2_bounds by (intro divide_strict_left_mono) simp_all
  then have hi: "y < 1000 / 12166"
    by (simp add: y_def)
  from lo hi have "\<bar>3 / 2 * y - 1232 / 10000\<bar> < 1 / 10000"
    by arith
  then show ?thesis
    by (simp only: v y_def)
qed

text \<open>
  C4. For every pair of rates and every \<open>h\<close>, \<open>a\<close> up to \<open>max_goals\<close>, the cell
  \<open>[h, a]\<close> of the grid built by \<^verbatim>\<open>score_matrix\<close> is the product of the two Poisson
  probabilities \<open>e\<^sup>-\<^sup>\<lambda> \<lambda>\<^sup>k / k!\<close>; for the rates 1.5 and 1.0 and \<open>max_goals = 6\<close> the cell
  \<open>[1, 1]\<close> is within 0.0001 of 0.1232.
\<close>

theorem score_matrix_cell:
  "(0 \<le> max_goals \<longrightarrow> int h \<le> max_goals \<longrightarrow> int a \<le> max_goals \<longrightarrow>
      (\<exists>g. score_matrix lh la max_goals = Inr g \<and>
         g ! h ! a = (exp (- lh) * lh ^ h / fact h) * (exp (- la) * la ^ a / fact a))) \<and>
   (\<exists>g. score_matrix (3 / 2) 1 6 = Inr g \<and>
      g ! 1 ! 1 = (exp (- (3 / 2)) * (3 / 2) ^ 1 / fact 1) * (exp (- 1) * 1 ^ 1 / fact 1) \<and>
      \<bar>g ! 1 ! 1 - 1232 / 10000\<bar> < 1 / 10000)"
proof -
  have cell: "\<exists>g. score_matrix lh la max_goals = Inr g \<and>
      g ! h ! a = poisson_prob h lh * poisson_prob a la"
    if "0 \<le> max_goals" "int h \<le> max_goals" "int a \<le> max_goals"
    for lh la :: real and max_goals :: int and h a :: nat
  proof -
    from that have n: "0 \<le> max_goals + 1" "h < nat (max_goals + 1)" "a < nat (max_goals + 1)"
      by simp_all
    then obtain g where g: "score_matrix lh la max_goals = Inr g"
      by (simp add: score_matrix_table)
    with n show ?thesis
      using score_matrix_nth [OF n(1) g n(2,3)] by simp
  qed
  have "\<exists>g. score_matrix (3 / 2) 1 6 = Inr g \<and>
      g ! 1 ! 1 = poisson_prob 1 (3 / 2) * poisson_prob 1 1"
    using cell [of 6 1 1 "3 / 2" 1] by simp
  then obtain g where g: "score_matrix (3 / 2) 1 6 = Inr g"
    and eq: "g ! 1 ! 1 = poisson_prob 1 (3 / 2) * poisson_prob 1 1"
    by blast
  have "g ! 1 ! 1 = (exp (- (3 / 2)) * (3 / 2) ^ 1 / fact 1) * (exp (- 1) * 1 ^ 1 / fact 1)"
    by (simp only: eq poisson_prob_def)
  moreover have "\<bar>g ! 1 ! 1 - 1232 / 10000\<bar> < 1 / 10000"
    by (simp only: eq poisson_cell_1_1)
  ultimately have "\<exists>g. score_matrix (3 / 2) 1 6 = Inr g \<and>
      g ! 1 ! 1 = (exp (- (3 / 2)) * (3 / 2) ^ 1 / fact 1) * (exp (- 1) * 1 ^ 1 / fact 1) \<and>
      \<bar>g ! 1 ! 1 - 1232 / 10000\<bar> < 1 / 10000"
    using g by blast
  moreover have "\<exists>g. score_matrix lh la max_goals = Inr g \<and>
      g ! h ! a = (exp (- lh) * lh ^ h / fact h) * (exp (- la) * la ^ a / fact a)"
    if "0 \<le> max_goals" "int h \<le> max_goals" "int a \<le> max_goals"
    using cell [OF that, of lh la] by (simp only: poisson_prob_def)
  ultimately show ?thesis by blast
qed

theorem score_matrix_cell_witness:
  "(0::int) \<le> 6 \<and> int 2 \<le> 6 \<and> int 0 \<le> 6 \<and>
   (\<exists>g. score_matrix (3 / 2) 1 6 = Inr g \<and>
      g ! 2 ! 0 = (exp (- (3 / 2)) * (3 / 2) ^ 2 / fact 2) * (exp (- 1) * 1 ^ 0 / fact 0))"
  using score_matrix_cell [of 6 2 0 "3 / 2" 1]
  by simp

subsection \<open>The prediction pipeline\<close>

lemma poisson_prob_pos: "0 < lam \<Longrightarrow> 0 < poisson_prob k lam"
  by (simp add: poisson_prob_def)

lemma estimate_pos:
  assumes "estimate hs as' desc = Inr (lh, la)"
  shows "0 < lh \<and> 0 < la"
proof -
  from assms obtain wet where w: "rain_or_snow desc = Inr wet"
    using estimate_Inr_wet by blast
  define bh where "bh = max (2 / 10) (65 / 100 * gf hs + 35 / 100 * ga as')"
  define ba where "ba = max (2 / 10) (65 / 100 * gf as' + 35 / 100 * ga hs)"
  have bh: "2 / 10 \<le> bh" and ba: "2 / 10 \<le> ba"
    by (simp_all add: bh_def ba_def)
  from assms have lh: "lh = min ((if wet then 95 / 100 else 1) * (bh * (112 / 100))) (32 / 10)"
    and la: "la = min ((if wet then 95 / 100 else 1) * ba) (32 / 10)"
    unfolding estimate_wet [OF w] bh_def ba_def by simp_all
  from bh ba show ?thesis
    by (cases wet) (simp_all add: lh la min_def)
qed

lemma score_matrix_sums:
  assumes n: "0 \<le> max_goals + 1" and g: "score_matrix lh la max_goals = Inr g"
  shows "home_raw g = (\<Sum>h<nat (max_goals + 1). \<Sum>a<nat (max_goals + 1).
           if a < h then poisson_prob h lh * poisson_prob a la else 0)"
    and "away_raw g = (\<Sum>h<nat (max_goals + 1). \<Sum>a<nat (max_goals + 1).
           if h < a then poisson_prob h lh * poisson_prob a la else 0)"
    and "total_mass g = (\<Sum>h<nat (max_goals + 1). \<Sum>a<nat (max_goals + 1).
           poisson_prob h lh * poisson_prob a la)"
  unfolding home_raw_def away_raw_def total_mass_def score_matrix_shape [OF n g]
  by (intro sum.cong refl; simp add: score_matrix_nth [OF n g])+

lemma score_matrix_total_pos:
  assumes n: "0 \<le> max_goals" and g: "score_matrix lh la max_goals = Inr g"
    and "0 < lh" and "0 < la"
  shows "0 < total_mass g"
proof -
  from n have n1: "0 \<le> max_goals + 1" and "0 < nat (max_goals + 1)"
    by simp_all
  then have ne: "{..<nat (max_goals + 1)} \<noteq> {}"
    by (simp add: lessThan_empty_iff)
  have "0 < (\<Sum>h<nat (max_goals + 1). \<Sum>a<nat (max_goals + 1).
           poisson_prob h lh * poisson_prob a la)"
    using assms(3,4) ne by (intro sum_pos mult_pos_pos poisson_prob_pos) simp_all
  then show ?thesis
    by (simp only: score_matrix_sums(3) [OF n1 g])
qed

text \<open>
  C10. For every pair of rates the estimator returns, both rates are positive, every
  cell of the grid built from them is positive, the denominator
  \<^verbatim>\<open>home + draw + away\<close> of \<^verbatim>\<open>outcome_probs\<close> is positive, and the scoreline
  selection returns a cell with a positive entry.
\<close>

theorem pipeline_grid_positive:
  assumes "estimate hs as' desc = Inr (lh, la)" and "0 \<le> max_goals"
  shows "0 < lh \<and> 0 < la \<and>
         (\<exists>g. score_matrix lh la max_goals = Inr g \<and>
            list_all (list_all (\<lambda>x. 0 < x)) g \<and>
            0 < arr_sum (tril g (- 1)) + trace g + arr_sum (triu g 1) \<and>
            (\<exists>hi ai. most_likely_scoreline g = Inr (hi, ai) \<and> 0 < g ! hi ! ai))"
proof -
  let ?n = "nat (max_goals + 1)"
  from assms(2) have n1: "0 \<le> max_goals + 1" and npos: "0 < ?n"
    by simp_all
  from assms(1) have pos: "0 < lh" "0 < la"
    using estimate_pos by blast+
  obtain g where g: "score_matrix lh la max_goals = Inr g"
    using n1 by (simp add: score_matrix_table)
  note shape = score_matrix_shape [OF n1 g]
  have cell: "0 < g ! h ! a" if "h < ?n" "a < ?n" for h a
    using that pos by (simp add: score_matrix_nth [OF n1 g] poisson_prob_pos)
  have "list_all (list_all (\<lambda>x. 0 < x)) g"
    unfolding list_all_length
  proof (intro allI impI)
    fix h a assume h: "h < length g" and a: "a < length (g ! h)"
    from h have "length (g ! h) = ?n"
      using rect_row [OF shape(3)] shape(2) by simp
    with h a show "0 < g ! h ! a"
      using cell shape(1) by simp
  qed
  moreover have "0 < arr_sum (tril g (- 1)) + trace g + arr_sum (triu g 1)"
    using score_matrix_total_pos [OF assms(2) g pos]
    by (simp only: home_raw_eq [OF shape(3)] away_raw_eq [OF shape(3)] draw_raw_eq
        raw_sums_total)
  moreover have "\<exists>hi ai. most_likely_scoreline g = Inr (hi, ai) \<and> 0 < g ! hi ! ai"
  proof -
    have "g \<noteq> []" and "0 < ncols g"
      using shape(1,2) npos by auto
    from scoreline_first_max [OF shape(3) this] obtain hi ai where
      "most_likely_scoreline g = Inr (hi, ai)" "hi < length g" "ai < ncols g"
      by blast
    then show ?thesis
      using cell shape(1,2) by auto
  qed
  ultimately show ?thesis
    using pos g by blast
qed

theorem pipeline_grid_positive_witness:
  "estimate default_summary default_summary ''clear'' = Inr (1631 / 1250, 233 / 200) \<and>
   (0::int) \<le> 6 \<and> (0::real) < 1631 / 1250 \<and> (0::real) < 233 / 200 \<and>
   (\<exists>g. score_matrix (1631 / 1250) (233 / 200) 6 = Inr g \<and>
      list_all (list_all (\<lambda>x. 0 < x)) g \<and>
      0 < arr_sum (tril g (- 1)) + trace g + arr_sum (triu g 1) \<and>
      (\<exists>hi ai. most_likely_scoreline g = Inr (hi, ai) \<and> 0 < g ! hi ! ai))"
  using pipeline_grid_positive [OF estimate_default_clear, of 6] estimate_default_clear
  by simp

lemma estimate_scenario:
  "estimate \<lparr>gf = 2, ga = 1, pts_per_game = p1, form_val = f1\<rparr>
     \<lparr>gf = 1, ga = 3 / 2, pts_per_game = p2, form_val = f2\<rparr> ''clear'' = Inr (511 / 250, 1)"
  by (simp add: estimate_wet [OF rain_or_snow_clear])

lemma poisson_prob_factor:
  "poisson_prob h lh * poisson_prob a la =
     exp (- lh) * exp (- la) * (lh ^ h / fact h * (la ^ a / fact a))"
  by (simp add: poisson_prob_def)

lemma scenario_weights:
  "(\<Sum>h<7. \<Sum>a<7. if h < a then (511 / 250 :: real) ^ h / fact h * (1 ^ a / fact a) else 0) <
   (\<Sum>h<7. \<Sum>a<7. if a < h then (511 / 250 :: real) ^ h / fact h * (1 ^ a / fact a) else 0)"
  by (simp add: eval_nat_numeral)

lemma scenario_home_gt_away:
  assumes g: "score_matrix (511 / 250) 1 6 = Inr g"
  shows "away_raw g < home_raw g"
proof -
  let ?E = "exp (- (511 / 250)) * exp (- 1) :: real"
  let ?c = "\<lambda>h a. (511 / 250 :: real) ^ h / fact h * (1 ^ a / fact a)"
  have n: "(0::int) \<le> 6 + 1" by simp
  have seven: "nat (6 + 1) = 7" by simp
  have "home_raw g = (\<Sum>h<7. \<Sum>a<7. if a < h then ?E * ?c h a else 0)"
    unfolding score_matrix_sums(1) [OF n g] seven poisson_prob_factor ..
  also have "\<dots> = (\<Sum>h<7. \<Sum>a<7. ?E * (if a < h then ?c h a else 0))"
    by (intro sum.cong refl) simp
  also have "\<dots> = ?E * (\<Sum>h<7. \<Sum>a<7. if a < h then ?c h a else 0)"
    by (simp only: sum_distrib_left)
  finally have home: "home_raw g = ?E * (\<Sum>h<7. \<Sum>a<7. if a < h then ?c h a else 0)" .
  have "away_raw g = (\<Sum>h<7. \<Sum>a<7. if h < a then ?E * ?c h a else 0)"
    unfolding score_matrix_sums(2) [OF n g] seven poisson_prob_factor ..
  also have "\<dots> = (\<Sum>h<7. \<Sum>a<7. ?E * (if h < a then ?c h a else 0))"
    by (intro sum.cong refl) simp
  also have "\<dots> = ?E * (\<Sum>h<7. \<Sum>a<7. if h < a then ?c h a else 0)"
    by (simp only: sum_distrib_left)
  finally have away: "away_raw g = ?E * (\<Sum>h<7. \<Sum>a<7. if h < a then ?c h a else 0)" .
  have "0 < ?E" by simp
  then show ?thesis
    unfolding home away using scenario_weights by (rule mult_strict_left_mono [rotated])
qed

text \<open>
  C9, as the code has it. For the home summary (gf = 2.0, ga = 1.0), the away summary
  (gf = 1.0, ga = 1.5) and the description "clear" the rates are 1.825 * 1.12 = 2.044
  and 1.0; the grid built from them with \<open>max_goals = 6\<close> gives finite outcome
  probabilities with the home probability above the away probability.
\<close>

theorem pipeline_home_favoured:
  "estimate \<lparr>gf = 2, ga = 1, pts_per_game = p1, form_val = f1\<rparr>
     \<lparr>gf = 1, ga = 3 / 2, pts_per_game = p2, form_val = f2\<rparr> ''clear'' = Inr (511 / 250, 1) \<and>
   (511 / 250 :: real) = max (2 / 10) (65 / 100 * 2 + 35 / 100 * (3 / 2)) * (112 / 100) \<and>
   (\<exists>g ph pd pa. score_matrix (511 / 250) 1 6 = Inr g \<and>
      outcome_probs g = (Finite ph, Finite pd, Finite pa) \<and> pa < ph)"
proof -
  have n: "(0::int) \<le> 6 + 1" and n0: "(0::int) \<le> 6" by simp_all
  obtain g where g: "score_matrix (511 / 250) 1 6 = Inr g"
    using n by (simp add: score_matrix_table)
  have r: "rect g"
    by (rule score_matrix_shape(3) [OF n g])
  have t: "0 < total_mass g"
    by (rule score_matrix_total_pos [OF n0 g]) simp_all
  then have "outcome_probs g =
      (Finite (home_raw g / total_mass g), Finite (draw_raw g / total_mass g),
       Finite (away_raw g / total_mass g))"
    by (simp add: outcome_probs_raw [OF r] np_div_finite)
  moreover have "away_raw g / total_mass g < home_raw g / total_mass g"
    using scenario_home_gt_away [OF g] t by (rule divide_strict_right_mono)
  ultimately have "\<exists>g ph pd pa. score_matrix (511 / 250) 1 6 = Inr g \<and>
      outcome_probs g = (Finite ph, Finite pd, Finite pa) \<and> pa < ph"
    using g by blast
  moreover have "(511 / 250 :: real) = max (2 / 10) (65 / 100 * 2 + 35 / 100 * (3 / 2)) * (112 / 100)"
    by simp
  ultimately show ?thesis
    using estimate_scenario by blast
qed

text \<open>
  C9 as stated fails: the home rate of the scenario is 2.044, not 1.8825.
\<close>

theorem pipeline_home_rate_counterexample:
  "estimate \<lparr>gf = 2, ga = 1, pts_per_game = 3 / 2, form_val = 1 / 2\<rparr>
     \<lparr>gf = 1, ga = 3 / 2, pts_per_game = 3 / 2, form_val = 1 / 2\<rparr> ''clear'' =
     Inr (511 / 250, 1) \<and>
   (511 / 250 :: real) \<noteq> 18825 / 10000"
  by (simp add: estimate_scenario)

end
